theory Spec2Isabelle
  imports Main "HOL-Library.Word" "HOL-Library.List_Lexorder" "HOL-Library.Multiset"
begin

unbundle bit_operations_syntax

section \<open>JavaScript strings\<close>

text \<open>
  A JavaScript string is a sequence of UTF-16 code units. \<open>Array.prototype.sort()\<close>
  without a comparator orders strings by their code units, lexicographically, a proper
  prefix first: the order on lists of \<^theory_text>\<open>HOL-Library.List_Lexorder\<close> over the
  unsigned order of \<open>16 word\<close>.
\<close>

type_synonym code_unit = "16 word"
type_synonym jsstring = "code_unit list"
type_synonym byte = "8 word"

definition ascii :: "string \<Rightarrow> jsstring" where
  "ascii s = map of_char s"

definition is_lead :: "code_unit \<Rightarrow> bool" where
  "is_lead c = (0xD800 \<le> c \<and> c \<le> 0xDBFF)"

definition is_trail :: "code_unit \<Rightarrow> bool" where
  "is_trail c = (0xDC00 \<le> c \<and> c \<le> 0xDFFF)"

definition is_surrogate :: "code_unit \<Rightarrow> bool" where
  "is_surrogate c = (is_lead c \<or> is_trail c)"

text \<open>\<open>Array.prototype.join\<close> on an array of strings.\<close>

fun join :: "jsstring \<Rightarrow> jsstring list \<Rightarrow> jsstring" where
  "join sep [] = []"
| "join sep [x] = x"
| "join sep (x # y # ys) = x @ sep @ join sep (y # ys)"

section \<open>Numbers\<close>

text \<open>
  A Number is an IEEE double. A finite non-zero one is represented by what
  \<open>Number::toString\<close> (ECMA-262, 6.1.6.1.20) reads off it: its sign, the integer \<open>s\<close> of
  its shortest round-trip decimal digits and the position \<open>n\<close> of the decimal point, so
  that the value is \<open>s * 10 ^ (n - k)\<close> for the number \<open>k\<close> of digits of \<open>s\<close>. The literals
  \<open>10\<close> and \<open>10.0\<close> denote the same double, with \<open>s = 1\<close> and \<open>n = 2\<close>.
\<close>

datatype jsnum =
    NumNaN
  | NumInfinity bool
  | NumZero bool
  | NumDec bool nat int

fun digits :: "nat \<Rightarrow> nat list" where
  "digits n = (if n < 10 then [n] else digits (n div 10) @ [n mod 10])"

declare digits.simps [simp del]

definition digit_unit :: "nat \<Rightarrow> code_unit" where
  "digit_unit d = of_nat (48 + d)"

definition decimal :: "nat \<Rightarrow> jsstring" where
  "decimal n = map digit_unit (digits n)"

text \<open>Steps 6 to 10 of \<open>Number::toString\<close> with radix 10, for a positive number.\<close>

definition toString_pos :: "nat \<Rightarrow> int \<Rightarrow> jsstring" where
  "toString_pos s n =
     (let ds = decimal s; k = int (length ds) in
      if k \<le> n \<and> n \<le> 21 then ds @ replicate (nat (n - k)) (digit_unit 0)
      else if 0 < n \<and> n \<le> 21 then take (nat n) ds @ ascii ''.'' @ drop (nat n) ds
      else if - 6 < n \<and> n \<le> 0 then ascii ''0.'' @ replicate (nat (- n)) (digit_unit 0) @ ds
      else
        let e = n - 1;
            es = (if e < 0 then ascii ''-'' else ascii ''+'') @ decimal (nat \<bar>e\<bar>)
        in if k = 1 then ds @ ascii ''e'' @ es
           else take 1 ds @ ascii ''.'' @ drop 1 ds @ ascii ''e'' @ es)"

fun Number_toString :: "jsnum \<Rightarrow> jsstring" where
  "Number_toString NumNaN = ascii ''NaN''"
| "Number_toString (NumZero _) = ascii ''0''"
| "Number_toString (NumInfinity neg) = (if neg then ascii ''-Infinity'' else ascii ''Infinity'')"
| "Number_toString (NumDec neg s n) = (if neg then ascii ''-'' else []) @ toString_pos s n"

fun is_finite :: "jsnum \<Rightarrow> bool" where
  "is_finite NumNaN = False"
| "is_finite (NumInfinity _) = False"
| "is_finite _ = True"

text \<open>\<open>JSON.stringify\<close> of a Number: non-finite numbers serialize as \<open>null\<close>.\<close>

definition stringify_number :: "jsnum \<Rightarrow> jsstring" where
  "stringify_number x = (if is_finite x then Number_toString x else ascii ''null'')"

text \<open>
  The Number a JSON numeral \<open>m * 10 ^ e\<close> parses to, for numerals of at most 15
  significant digits inside the normal range, where the decimal itself is the shortest
  round-trip form once its trailing zeros are dropped.
\<close>

fun strip_zeros :: "nat \<Rightarrow> nat \<times> nat" where
  "strip_zeros m = (if m = 0 \<or> m mod 10 \<noteq> 0 then (m, 0)
                    else let (s, z) = strip_zeros (m div 10) in (s, Suc z))"

declare strip_zeros.simps [simp del]

definition number_of_decimal :: "bool \<Rightarrow> nat \<Rightarrow> int \<Rightarrow> jsnum" where
  "number_of_decimal neg m e =
     (if m = 0 then NumZero neg
      else let (s, z) = strip_zeros m
           in NumDec neg s (int (length (digits s)) + int z + e))"

section \<open>JSON.stringify on strings\<close>

definition hex_unit :: "nat \<Rightarrow> code_unit" where
  "hex_unit d = (if d < 10 then of_nat (48 + d) else of_nat (87 + d))"

text \<open>\<open>UnicodeEscape\<close>: backslash, \<open>u\<close> and four lowercase hexadecimal digits.\<close>

definition unicode_escape :: "code_unit \<Rightarrow> jsstring" where
  "unicode_escape c =
     (let n = unat c in
      [0x5C, 0x75, hex_unit (n div 4096), hex_unit (n div 256 mod 16),
       hex_unit (n div 16 mod 16), hex_unit (n mod 16)])"

text \<open>One code unit that is not part of a surrogate pair, as \<open>QuoteJSONString\<close> emits it.\<close>

definition quote_unit :: "code_unit \<Rightarrow> jsstring" where
  "quote_unit c =
     (if c = 0x08 then [0x5C, 0x62]
      else if c = 0x09 then [0x5C, 0x74]
      else if c = 0x0A then [0x5C, 0x6E]
      else if c = 0x0C then [0x5C, 0x66]
      else if c = 0x0D then [0x5C, 0x72]
      else if c = 0x22 then [0x5C, 0x22]
      else if c = 0x5C then [0x5C, 0x5C]
      else if c < 0x20 \<or> is_surrogate c then unicode_escape c
      else [c])"

fun quote_units :: "jsstring \<Rightarrow> jsstring" where
  "quote_units [] = []"
| "quote_units [c] = quote_unit c"
| "quote_units (c # d # ds) =
     (if is_lead c \<and> is_trail d then c # d # quote_units ds
      else quote_unit c @ quote_units (d # ds))"

definition QuoteJSONString :: "jsstring \<Rightarrow> jsstring" where
  "QuoteJSONString s = [0x22] @ quote_units s @ [0x22]"

section \<open>JSON values\<close>

text \<open>
  What \<open>response.json()\<close> can return. An object is its list of own properties in
  enumeration order; a JavaScript object never holds one key twice (\<open>wf_json\<close>).
\<close>

datatype json =
    JNull
  | JBool bool
  | JNum jsnum
  | JStr jsstring
  | JArr "json list"
  | JObj "(jsstring \<times> json) list"

fun wf_json :: "json \<Rightarrow> bool" where
  "wf_json (JArr xs) = list_all wf_json xs"
| "wf_json (JObj kvs) = (distinct (map fst kvs) \<and> list_all (\<lambda>kv. wf_json (snd kv)) kvs)"
| "wf_json _ = True"

section \<open>canonicalJSON\<close>

text \<open>
  \<^verbatim>\<open>
  private canonicalJSON(obj: any): string {
    if (obj === null) { return 'null'; }
    if (typeof obj !== 'object') { return JSON.stringify(obj); }
    if (Array.isArray(obj)) {
      return '[' + obj.map(item => this.canonicalJSON(item)).join(',') + ']';
    }
    const keys = Object.keys(obj).sort();
    const pairs = keys.map(key => {
      const value = this.canonicalJSON(obj[key]);
      return `"${key}":${value}`;
    });
    return '{' + pairs.join(',') + '}';
  }
  \<close>
  The key goes into the template literal as it is. \<open>obj[key]\<close> of a key that
  \<open>Object.keys\<close> returned is always found; the \<open>None\<close> branch is what the template
  would print for \<open>undefined\<close>.
\<close>

function canonicalJSON :: "json \<Rightarrow> jsstring" where
  "canonicalJSON JNull = ascii ''null''"
| "canonicalJSON (JBool b) = (if b then ascii ''true'' else ascii ''false'')"
| "canonicalJSON (JNum x) = stringify_number x"
| "canonicalJSON (JStr s) = QuoteJSONString s"
| "canonicalJSON (JArr xs) = ascii ''['' @ join (ascii '','') (map canonicalJSON xs) @ ascii '']''"
| "canonicalJSON (JObj kvs) =
     (let keys = sort (map fst kvs);
          pairs = map (\<lambda>key. [0x22] @ key @ [0x22, 0x3A] @
                        (case map_of kvs key of
                           Some v \<Rightarrow> canonicalJSON v
                         | None \<Rightarrow> ascii ''undefined'')) keys
      in ascii ''{'' @ join (ascii '','') pairs @ ascii ''}'')"
  by pat_completeness auto
termination
proof (relation "measure size")
  fix kvs :: "(jsstring \<times> json) list" and key :: jsstring and v :: json
  assume "map_of kvs key = Some v"
  then have "size v < Suc (size_list (size_prod (\<lambda>_. 0) size) kvs)"
    by (induction kvs) (auto split: if_splits)
  then show "(v, JObj kvs) \<in> measure size"
    by simp
qed (auto simp: less_Suc_eq_le size_list_estimation')

section \<open>UTF-8 and SHA-256\<close>

text \<open>
  \<open>crypto.createHash('sha256').update(s).digest('hex')\<close>: \<open>update\<close> encodes the string
  as UTF-8 (a surrogate pair is one code point, a lone surrogate is replaced by U+FFFD),
  the hash is SHA-256 of FIPS 180-4, and \<open>digest('hex')\<close> prints each byte as two
  lowercase hexadecimal digits.
\<close>

definition utf8_cp :: "nat \<Rightarrow> byte list" where
  "utf8_cp n =
     (if n < 0x80 then [of_nat n]
      else if n < 0x800 then [of_nat (0xC0 + n div 64), of_nat (0x80 + n mod 64)]
      else if n < 0x10000 then
        [of_nat (0xE0 + n div 4096), of_nat (0x80 + n div 64 mod 64), of_nat (0x80 + n mod 64)]
      else
        [of_nat (0xF0 + n div 262144), of_nat (0x80 + n div 4096 mod 64),
         of_nat (0x80 + n div 64 mod 64), of_nat (0x80 + n mod 64)])"

definition unit_cp :: "code_unit \<Rightarrow> nat" where
  "unit_cp c = (if is_surrogate c then 0xFFFD else unat c)"

definition pair_cp :: "code_unit \<Rightarrow> code_unit \<Rightarrow> nat" where
  "pair_cp c d = 0x10000 + (unat c - 0xD800) * 0x400 + (unat d - 0xDC00)"

fun utf8 :: "jsstring \<Rightarrow> byte list" where
  "utf8 [] = []"
| "utf8 [c] = utf8_cp (unit_cp c)"
| "utf8 (c # d # ds) =
     (if is_lead c \<and> is_trail d then utf8_cp (pair_cp c d) @ utf8 ds
      else utf8_cp (unit_cp c) @ utf8 (d # ds))"

type_synonym w32 = "32 word"

definition K256 :: "w32 list" where
  "K256 =
     [1116352408, 1899447441, 3049323471, 3921009573, 961987163, 1508970993,
      2453635748, 2870763221, 3624381080, 310598401, 607225278, 1426881987,
      1925078388, 2162078206, 2614888103, 3248222580, 3835390401, 4022224774,
      264347078, 604807628, 770255983, 1249150122, 1555081692, 1996064986,
      2554220882, 2821834349, 2952996808, 3210313671, 3336571891, 3584528711,
      113926993, 338241895, 666307205, 773529912, 1294757372, 1396182291,
      1695183700, 1986661051, 2177026350, 2456956037, 2730485921, 2820302411,
      3259730800, 3345764771, 3516065817, 3600352804, 4094571909, 275423344,
      430227734, 506948616, 659060556, 883997877, 958139571, 1322822218,
      1537002063, 1747873779, 1955562222, 2024104815, 2227730452, 2361852424,
      2428436474, 2756734187, 3204031479, 3329325298]"

definition H256 :: "w32 list" where
  "H256 = [1779033703, 3144134277, 1013904242, 2773480762,
           1359893119, 2600822924, 528734635, 1541459225]"

definition Ch :: "w32 \<Rightarrow> w32 \<Rightarrow> w32 \<Rightarrow> w32" where
  "Ch x y z = (x AND y) XOR (NOT x AND z)"

definition Maj :: "w32 \<Rightarrow> w32 \<Rightarrow> w32 \<Rightarrow> w32" where
  "Maj x y z = (x AND y) XOR (x AND z) XOR (y AND z)"

definition bsig0 :: "w32 \<Rightarrow> w32" where
  "bsig0 x = word_rotr 2 x XOR word_rotr 13 x XOR word_rotr 22 x"

definition bsig1 :: "w32 \<Rightarrow> w32" where
  "bsig1 x = word_rotr 6 x XOR word_rotr 11 x XOR word_rotr 25 x"

definition ssig0 :: "w32 \<Rightarrow> w32" where
  "ssig0 x = word_rotr 7 x XOR word_rotr 18 x XOR drop_bit 3 x"

definition ssig1 :: "w32 \<Rightarrow> w32" where
  "ssig1 x = word_rotr 17 x XOR word_rotr 19 x XOR drop_bit 10 x"

definition be64 :: "nat \<Rightarrow> byte list" where
  "be64 n = (let w = (of_nat n :: 64 word) in map (\<lambda>i. ucast (drop_bit (8 * i) w)) (rev [0..<8]))"

definition pad :: "byte list \<Rightarrow> byte list" where
  "pad m = (let l = length m; z = (64 - (l + 9) mod 64) mod 64
            in m @ [0x80] @ replicate z 0 @ be64 (8 * l))"

fun chunks :: "nat \<Rightarrow> 'a list \<Rightarrow> 'a list list" where
  "chunks n xs = (if n = 0 \<or> xs = [] then [] else take n xs # chunks n (drop n xs))"

declare chunks.simps [simp del]

definition word_of_bytes :: "byte list \<Rightarrow> w32" where
  "word_of_bytes bs = foldl (\<lambda>w b. push_bit 8 w OR ucast b) 0 bs"

definition bytes_of_word :: "w32 \<Rightarrow> byte list" where
  "bytes_of_word w = [ucast (drop_bit 24 w), ucast (drop_bit 16 w), ucast (drop_bit 8 w), ucast w]"

fun schedule :: "nat \<Rightarrow> w32 list \<Rightarrow> w32 list" where
  "schedule 0 w = w"
| "schedule (Suc n) w =
     (let t = length w
      in schedule n (w @ [ssig1 (w ! (t - 2)) + w ! (t - 7) + ssig0 (w ! (t - 15)) + w ! (t - 16)]))"

fun round256 :: "w32 list \<Rightarrow> w32 \<times> w32 \<Rightarrow> w32 list" where
  "round256 [a, b, c, d, e, f, g, h] (k, w) =
     (let t1 = h + bsig1 e + Ch e f g + k + w;
          t2 = bsig0 a + Maj a b c
      in [t1 + t2, a, b, c, d + t1, e, f, g])"
| "round256 s _ = s"

definition compress :: "w32 list \<Rightarrow> byte list \<Rightarrow> w32 list" where
  "compress hs block =
     (let w = schedule 48 (map word_of_bytes (chunks 4 block))
      in map2 (+) hs (foldl round256 hs (zip K256 w)))"

definition sha256 :: "byte list \<Rightarrow> byte list" where
  "sha256 m = concat (map bytes_of_word (foldl compress H256 (chunks 64 (pad m))))"

definition hex_of_bytes :: "byte list \<Rightarrow> jsstring" where
  "hex_of_bytes bs = concat (map (\<lambda>b. [hex_unit (unat b div 16), hex_unit (unat b mod 16)]) bs)"

definition sha256_hex :: "jsstring \<Rightarrow> jsstring" where
  "sha256_hex s = hex_of_bytes (sha256 (utf8 s))"

section \<open>Receipt verification\<close>

definition k_sha256_hash :: jsstring where
  "k_sha256_hash = ascii ''sha256_hash''"

definition k_hash :: jsstring where
  "k_hash = ascii ''hash''"

text \<open>\<open>ToBoolean\<close>, as \<open>!x\<close> and \<open>x || y\<close> apply it.\<close>

fun truthy :: "json \<Rightarrow> bool" where
  "truthy JNull = False"
| "truthy (JBool b) = b"
| "truthy (JNum NumNaN) = False"
| "truthy (JNum (NumZero _)) = False"
| "truthy (JNum _) = True"
| "truthy (JStr s) = (s \<noteq> [])"
| "truthy (JArr _) = True"
| "truthy (JObj _) = True"

text \<open>
  The property read \<open>receipt.sha256_hash\<close> or \<open>receipt.hash\<close> on a value other than
  \<open>null\<close>; \<open>None\<close> is \<open>undefined\<close>. Arrays, strings, numbers and booleans have no
  property of either name.
\<close>

fun get_member :: "json \<Rightarrow> jsstring \<Rightarrow> json option" where
  "get_member (JObj kvs) k = map_of kvs k"
| "get_member _ k = None"

definition js_or :: "json option \<Rightarrow> json option \<Rightarrow> json option" where
  "js_or a b = (case a of Some v \<Rightarrow> if truthy v then a else b | None \<Rightarrow> b)"

text \<open>\<open>ToBoolean\<close> of what a property read returned: \<open>undefined\<close> is falsy.\<close>

definition truthy_opt :: "json option \<Rightarrow> bool" where
  "truthy_opt x = (case x of Some v \<Rightarrow> truthy v | None \<Rightarrow> False)"

text \<open>The assignment \<open>obj[k] = v\<close> and the statement \<open>delete obj[k]\<close> on a property list.\<close>

fun set_member :: "jsstring \<Rightarrow> json \<Rightarrow> (jsstring \<times> json) list \<Rightarrow> (jsstring \<times> json) list" where
  "set_member k v [] = [(k, v)]"
| "set_member k v (p # ps) = (if fst p = k then (k, v) # ps else p # set_member k v ps)"

definition delete_member :: "jsstring \<Rightarrow> (jsstring \<times> json) list \<Rightarrow> (jsstring \<times> json) list" where
  "delete_member k kvs = filter (\<lambda>kv. fst kv \<noteq> k) kvs"

text \<open>The own enumerable properties that the object spread \<open>{ ...receipt }\<close> copies.\<close>

fun spread :: "json \<Rightarrow> (jsstring \<times> json) list" where
  "spread (JObj kvs) = kvs"
| "spread (JArr xs) = zip (map decimal [0..<length xs]) xs"
| "spread (JStr s) = zip (map decimal [0..<length s]) (map (\<lambda>c. JStr [c]) s)"
| "spread _ = []"

text \<open>
  \<^verbatim>\<open>
  private computeReceiptHash(receipt: any): string {
    const canonical = { ...receipt };
    delete canonical.sha256_hash;
    delete canonical.hash;
    const canonicalJson = this.canonicalJSON(canonical);
    const hash = crypto.createHash('sha256');
    hash.update(canonicalJson);
    return hash.digest('hex');
  }
  \<close>
\<close>

definition hashed_members :: "json \<Rightarrow> (jsstring \<times> json) list" where
  "hashed_members doc = delete_member k_hash (delete_member k_sha256_hash (spread doc))"

definition computeReceiptHash :: "json \<Rightarrow> jsstring" where
  "computeReceiptHash doc =
     (let canonical = JObj (hashed_members doc);
          canonicalJson = canonicalJSON canonical
      in sha256_hex canonicalJson)"

record ReceiptVerification =
  ok :: bool
  computed_hash :: jsstring
  reported_hash :: json
  receipt :: "json option"
  error :: "jsstring option"

text \<open>The \<open>catch\<close> branch of \<open>verifyReceipt\<close>.\<close>

definition failure :: "jsstring \<Rightarrow> ReceiptVerification" where
  "failure msg =
     \<lparr>ok = False, computed_hash = [], reported_hash = JStr [], receipt = None, error = Some msg\<rparr>"

definition msg_no_hash :: jsstring where
  "msg_no_hash = ascii ''Receipt does not contain sha256_hash field''"

definition msg_null :: jsstring where
  "msg_null = ascii ''Cannot read properties of null (reading 'sha256_hash')''"

text \<open>
  \<open>SolPayX402.verifyReceipt\<close> from the line after \<open>const receipt = await response.json()\<close>
  on: the document has been fetched and parsed.
  \<^verbatim>\<open>
      const reportedHash = receipt.sha256_hash || receipt.hash;
      if (!reportedHash) {
        throw new Error('Receipt does not contain sha256_hash field');
      }
      const computedHash = this.computeReceiptHash(receipt);
      const ok = computedHash === reportedHash;
      return { ok, computed_hash: computedHash, reported_hash: reportedHash, receipt };
    } catch (error) {
      return { ok: false, computed_hash: '', reported_hash: '',
               error: error instanceof Error ? error.message : 'Unknown error' };
    }
  \<close>
  Reading a property of \<open>null\<close> throws a TypeError, which the \<open>catch\<close> reports as well.
\<close>

definition verifyReceipt :: "json \<Rightarrow> ReceiptVerification" where
  "verifyReceipt doc =
     (if doc = JNull then failure msg_null
      else case js_or (get_member doc k_sha256_hash) (get_member doc k_hash) of
             None \<Rightarrow> failure msg_no_hash
           | Some reportedHash \<Rightarrow>
               if \<not> truthy reportedHash then failure msg_no_hash
               else
                 let computedHash = computeReceiptHash doc
                 in \<lparr>ok = (JStr computedHash = reportedHash),
                     computed_hash = computedHash,
                     reported_hash = reportedHash,
                     receipt = Some doc,
                     error = None\<rparr>)"

text \<open>
  The manual verification of docs/receipts-and-memo.md reads only \<open>sha256_hash\<close> and
  returns the comparison; on \<open>null\<close> it throws.
  \<^verbatim>\<open>
  function verifyReceipt(receipt) {
    const reportedHash = receipt.sha256_hash;
    const canonical = { ...receipt };
    delete canonical.sha256_hash;
    delete canonical.hash;
    const canonicalJson = canonicalJSON(canonical);
    const computedHash = crypto.createHash('sha256').update(canonicalJson).digest('hex');
    return computedHash === reportedHash;
  }
  \<close>
\<close>

definition manual_verifyReceipt :: "json \<Rightarrow> jsstring + bool" where
  "manual_verifyReceipt doc =
     (if doc = JNull then Inl msg_null
      else
        let reportedHash = get_member doc k_sha256_hash;
            computedHash = computeReceiptHash doc
        in Inr (Some (JStr computedHash) = reportedHash))"

section \<open>The receipt as a mutable object\<close>

text \<open>
  \<open>receipt\<close> and \<open>canonical\<close> are references to objects. The store holds the property
  list of every object that is read or written through a reference; a reference is an
  index into it and always points at an object. Property values are immutable here: no
  statement of \<open>verifyReceipt\<close>, \<open>computeReceiptHash\<close> or \<open>canonicalJSON\<close> writes to a
  nested object. The spread \<open>{ ...receipt }\<close> allocates a new object with the same
  properties; \<open>delete\<close> removes a property of the object it is given.
\<close>

type_synonym ref = nat
type_synonym store = "(jsstring \<times> json) list list"

definition spread_object :: "ref \<Rightarrow> store \<Rightarrow> ref \<times> store" where
  "spread_object r st = (length st, st @ [st ! r])"

definition delete_property :: "ref \<Rightarrow> jsstring \<Rightarrow> store \<Rightarrow> store" where
  "delete_property r k st = st[r := delete_member k (st ! r)]"

definition computeReceiptHash_store :: "ref \<Rightarrow> store \<Rightarrow> jsstring \<times> store" where
  "computeReceiptHash_store r st =
     (let (canonical, st1) = spread_object r st;
          st2 = delete_property canonical k_sha256_hash st1;
          st3 = delete_property canonical k_hash st2;
          canonicalJson = canonicalJSON (JObj (st3 ! canonical))
      in (sha256_hex canonicalJson, st3))"

text \<open>
  \<open>verifyReceipt\<close> on the store. The \<open>receipt\<close> of the result is the reference it was
  given: the caller sees the object as the call left it.
\<close>

definition verifyReceipt_store :: "ref \<Rightarrow> store \<Rightarrow> ReceiptVerification \<times> store" where
  "verifyReceipt_store r st =
     (case js_or (map_of (st ! r) k_sha256_hash) (map_of (st ! r) k_hash) of
        None \<Rightarrow> (failure msg_no_hash, st)
      | Some reportedHash \<Rightarrow>
          if \<not> truthy reportedHash then (failure msg_no_hash, st)
          else
            let (computedHash, st') = computeReceiptHash_store r st
            in (\<lparr>ok = (JStr computedHash = reportedHash),
                 computed_hash = computedHash,
                 reported_hash = reportedHash,
                 receipt = Some (JObj (st' ! r)),
                 error = None\<rparr>, st'))"

section \<open>The client and the payment-intent request\<close>



record PayParams =
  amount :: jsnum
  asset :: jsstring
  customerEmail :: "jsstring option"
  metadata :: "(jsstring \<times> json) list option"
  successUrl :: "jsstring option"
  cancelUrl :: "jsstring option"













section \<open>The PHP client\<close>













section \<open>Documents that differ in member order\<close>

text \<open>
  \<open>reorder a b\<close>: \<open>b\<close> is \<open>a\<close> with the members of its objects permuted, at the top
  level and at every depth. Arrays keep their order.
\<close>

inductive reorder :: "json \<Rightarrow> json \<Rightarrow> bool" where
  null: "reorder JNull JNull"
| bool: "reorder (JBool b) (JBool b)"
| num: "reorder (JNum x) (JNum x)"
| str: "reorder (JStr s) (JStr s)"
| arr: "list_all2 reorder xs ys \<Longrightarrow> reorder (JArr xs) (JArr ys)"
| obj: "list_all2 (\<lambda>kv kv'. fst kv = fst kv' \<and> reorder (snd kv) (snd kv')) kvs kvs1 \<Longrightarrow>
        mset kvs' = mset kvs1 \<Longrightarrow> reorder (JObj kvs) (JObj kvs')"

text \<open>A member named like a digest field, in the object or in any object inside it.\<close>

fun has_alias :: "json \<Rightarrow> bool" where
  "has_alias (JObj kvs) =
     list_ex (\<lambda>kv. fst kv = k_sha256_hash \<or> fst kv = k_hash \<or> has_alias (snd kv)) kvs"
| "has_alias (JArr xs) = list_ex has_alias xs"
| "has_alias _ = False"

section \<open>Example documents\<close>

text \<open>The fields of a small receipt: a merchant and the amount 9.7.\<close>

definition payment_fields :: "(jsstring \<times> json) list" where
  "payment_fields =
     [(ascii ''merchant'', JStr (ascii ''ABC123'')),
      (ascii ''amount'', JNum (number_of_decimal False 97 (- 1)))]"

text \<open>The example of docs/receipts-and-memo.md; its amount is written \<open>10.0\<close>.\<close>

definition documented_receipt :: json where
  "documented_receipt =
     JObj [(ascii ''amount'', JNum (number_of_decimal False 100 (- 1))),
           (ascii ''merchant'', JStr (ascii ''ABC123'')),
           (ascii ''sha256_hash'', JStr (ascii ''xxx''))]"

text \<open>An object whose only key holds a double quote.\<close>

definition quoted_key_object :: json where
  \<open>quoted_key_object = JObj [(ascii ''a"b'', JNum (number_of_decimal False 1 0))]\<close>

text \<open>A receipt whose settlement has a member named \<open>hash\<close>.\<close>

definition nested_alias_receipt :: json where
  "nested_alias_receipt =
     JObj [(ascii ''settlement'', JObj [(ascii ''hash'', JStr (ascii ''x''))]),
           (ascii ''sha256_hash'', JStr (ascii ''y''))]"

text \<open>
  A receipt with its digest, and the same receipt with the settlement replaced by an
  object of one member whose key holds quotes, a colon and a comma.
\<close>

definition genuine_receipt :: json where
  \<open>genuine_receipt =
     JObj [(ascii ''settlement'',
              JObj [(ascii ''fee'', JNum (number_of_decimal False 1 0)),
                    (ascii ''net'', JNum (number_of_decimal False 9 0))]),
           (ascii ''sha256_hash'', JStr (sha256_hex (ascii ''{"settlement":{"fee":1,"net":9}}'')))]\<close>

definition tampered_receipt :: json where
  \<open>tampered_receipt =
     JObj [(ascii ''settlement'',
              JObj [(ascii ''fee":1,"net'', JNum (number_of_decimal False 9 0))]),
           (ascii ''sha256_hash'', JStr (sha256_hex (ascii ''{"settlement":{"fee":1,"net":9}}'')))]\<close>

text \<open>One document with its members listed in two orders, at both depths.\<close>

definition listed_doc :: json where
  "listed_doc =
     JObj [(ascii ''a'', JNum (number_of_decimal False 1 0)),
           (ascii ''b'', JObj [(ascii ''d'', JNull), (ascii ''c'', JArr [JBool True])])]"

definition permuted_doc :: json where
  "permuted_doc =
     JObj [(ascii ''b'', JObj [(ascii ''c'', JArr [JBool True]), (ascii ''d'', JNull)]),
           (ascii ''a'', JNum (number_of_decimal False 1 0))]"

text \<open>The properties of a receipt object that carries both digest fields.\<close>

definition stored_receipt :: "(jsstring \<times> json) list" where
  "stored_receipt = payment_fields @ [(k_sha256_hash, JStr (ascii ''abc'')), (k_hash, JStr (ascii ''def''))]"









section \<open>Facts about the digest and the property list\<close>

lemma length_round256: "length (round256 s kw) = length s"
  by (induction s kw rule: round256.induct) (simp_all add: Let_def)

lemma length_foldl_round256: "length (foldl round256 s kws) = length s"
  by (induction kws arbitrary: s) (simp_all add: length_round256)

lemma length_compress: "length (compress hs b) = length hs"
  by (simp add: compress_def Let_def length_foldl_round256)

lemma length_foldl_compress: "length (foldl compress hs bs) = length hs"
  by (induction bs arbitrary: hs) (simp_all add: length_compress)

lemma length_sha256: "length (sha256 m) = 32"
proof -
  have "length (concat (map bytes_of_word ws)) = 4 * length ws" for ws
    by (induction ws) (simp_all add: bytes_of_word_def)
  then show ?thesis
    by (simp add: sha256_def length_foldl_compress H256_def)
qed

lemma length_hex_of_bytes: "length (hex_of_bytes bs) = 2 * length bs"
  by (induction bs) (simp_all add: hex_of_bytes_def)

lemma length_sha256_hex: "length (sha256_hex s) = 64"
  by (simp add: sha256_hex_def length_hex_of_bytes length_sha256)

lemma sha256_hex_nonempty: "sha256_hex s \<noteq> []"
  using length_sha256_hex [of s] by auto

lemma digest_keys_distinct: "k_sha256_hash \<noteq> k_hash"
  by (simp add: k_sha256_hash_def k_hash_def ascii_def)

lemma delete_member_absent: "k \<notin> fst ` set kvs \<Longrightarrow> delete_member k kvs = kvs"
  by (induction kvs) (auto simp: delete_member_def)

lemma delete_member_set_member: "delete_member k (set_member k v kvs) = delete_member k kvs"
  by (induction kvs) (auto simp: delete_member_def)

lemma map_of_set_member_same: "map_of (set_member k v kvs) k = Some v"
  by (induction kvs) auto

lemma map_of_set_member_other: "k' \<noteq> k \<Longrightarrow> map_of (set_member k v kvs) k' = map_of kvs k'"
  by (induction kvs) auto

lemma delete_member_commute:
  "delete_member k (delete_member k' kvs) = delete_member k' (delete_member k kvs)"
  by (induction kvs) (auto simp: delete_member_def)

lemma hashed_members_set_sha:
  "hashed_members (JObj (set_member k_sha256_hash v kvs)) = hashed_members (JObj kvs)"
  by (simp add: hashed_members_def delete_member_set_member)

lemma computeReceiptHash_set_sha:
  "computeReceiptHash (JObj (set_member k_sha256_hash v kvs)) = computeReceiptHash (JObj kvs)"
  by (simp add: computeReceiptHash_def hashed_members_set_sha)

lemma hashed_members_clean:
  "k_sha256_hash \<notin> fst ` set kvs \<Longrightarrow> k_hash \<notin> fst ` set kvs \<Longrightarrow> hashed_members (JObj kvs) = kvs"
  by (simp add: hashed_members_def delete_member_absent)

lemmas eval_defs = ascii_def k_sha256_hash_def k_hash_def hashed_members_def delete_member_def
  number_of_decimal_def strip_zeros.simps digits.simps stringify_number_def toString_pos_def
  decimal_def digit_unit_def QuoteJSONString_def quote_unit_def is_lead_def is_trail_def
  is_surrogate_def

lemma verifyReceipt_computed_set_sha:
  "computed_hash (verifyReceipt (JObj (set_member k_sha256_hash v kvs))) =
     (if truthy v then computeReceiptHash (JObj kvs)
      else case map_of kvs k_hash of
             None \<Rightarrow> []
           | Some r \<Rightarrow> if truthy r then computeReceiptHash (JObj kvs) else [])"
  using digest_keys_distinct
  by (simp add: verifyReceipt_def js_or_def map_of_set_member_same map_of_set_member_other
      computeReceiptHash_set_sha failure_def Let_def split: option.splits)

lemma member_text_cong:
  assumes "list_all2 (\<lambda>kv kv'. fst kv = fst kv' \<and> f (snd kv) = f (snd kv')) kvs kvs1"
  shows "(case map_of kvs k of Some v \<Rightarrow> f v | None \<Rightarrow> u) =
         (case map_of kvs1 k of Some v \<Rightarrow> f v | None \<Rightarrow> u)"
  using assms by (induction rule: list_all2_induct) auto

lemma map_of_mset_eq:
  assumes "mset kvs' = mset kvs1" and "distinct (map fst kvs1)"
  shows "map_of kvs' = map_of kvs1"
proof -
  have "mset (map fst kvs') = mset (map fst kvs1)"
    using assms(1) by simp
  then have "distinct (map fst kvs')"
    using assms(2) mset_eq_imp_distinct_iff by blast
  moreover have "set kvs' = set kvs1"
    using assms(1) by (rule mset_eq_setD)
  ultimately show ?thesis
    using assms(2) by (simp add: map_of_inject_set)
qed


lemma sort_keys_mset_eq:
  assumes "mset (ks' :: jsstring list) = mset ks"
  shows "sort ks' = sort ks"
proof (rule properties_for_sort)
  show "mset (sort ks) = mset ks'"
    using assms by simp
  show "sorted (sort ks)"
    by simp
qed

lemma canonical_members:
  assumes "list_all2 (\<lambda>kv kv'. fst kv = fst kv' \<and> canonicalJSON (snd kv) = canonicalJSON (snd kv')) kvs kvs1"
    and "mset kvs' = mset kvs1" and "distinct (map fst kvs)"
  shows "canonicalJSON (JObj kvs) = canonicalJSON (JObj kvs')"
proof -
  have keys: "map fst kvs1 = map fst kvs"
    using assms(1) by (induction rule: list_all2_induct) auto
  have m: "map_of kvs' = map_of kvs1"
  proof (rule map_of_mset_eq [OF assms(2)])
    show "distinct (map fst kvs1)"
      using assms(3) keys by simp
  qed
  have "mset (map fst kvs') = mset (map fst kvs1)"
    using assms(2) by simp
  then have "sort (map fst kvs') = sort (map fst kvs1)"
    by (rule sort_keys_mset_eq)
  then have s: "sort (map fst kvs') = sort (map fst kvs)"
    using keys by simp
  have t: "(case map_of kvs k of Some v \<Rightarrow> canonicalJSON v | None \<Rightarrow> u) =
           (case map_of kvs' k of Some v \<Rightarrow> canonicalJSON v | None \<Rightarrow> u)" for k u
    unfolding m by (rule member_text_cong [OF assms(1)])
  show ?thesis
    by (simp only: canonicalJSON.simps Let_def s t)
qed


lemma reorder_canonical: "reorder a b \<Longrightarrow> wf_json a \<Longrightarrow> canonicalJSON a = canonicalJSON b"
proof (induction rule: reorder.induct)
  case (arr xs ys)
  from arr.IH arr.prems have "map canonicalJSON xs = map canonicalJSON ys"
    by (induction rule: list_all2_induct) auto
  then show ?case by simp
next
  case (obj kvs kvs1 kvs')
  have "list_all (\<lambda>kv. wf_json (snd kv)) kvs"
    using obj.prems by simp
  with obj.IH
  have "list_all2 (\<lambda>kv kv'. fst kv = fst kv' \<and> canonicalJSON (snd kv) = canonicalJSON (snd kv')) kvs kvs1"
    by (induction rule: list_all2_induct) auto
  moreover have "distinct (map fst kvs)"
    using obj.prems by simp
  ultimately show ?case
    using obj.hyps by (intro canonical_members)
qed simp_all

lemma computeReceiptHash_store_eq:
  assumes "r < length st"
  shows "computeReceiptHash_store r st =
           (computeReceiptHash (JObj (st ! r)), st @ [hashed_members (JObj (st ! r))])"
  using assms
  by (simp add: computeReceiptHash_store_def spread_object_def delete_property_def
      computeReceiptHash_def hashed_members_def Let_def nth_append del: canonicalJSON.simps)

section \<open>Round trip\<close>

text \<open>
  C1. For every document without digest fields: compute the digest (lowercase
  hexadecimal SHA-256 of the UTF-8 canonical form), store it in the document under
  \<open>sha256_hash\<close>, verify the result: \<open>ok\<close> is true. The manual verification of the
  documentation answers true as well.
\<close>

theorem round_trip:
  assumes "k_sha256_hash \<notin> fst ` set kvs" and "k_hash \<notin> fst ` set kvs"
  shows "ok (verifyReceipt (JObj (set_member k_sha256_hash
               (JStr (sha256_hex (canonicalJSON (JObj kvs)))) kvs))) \<and>
         manual_verifyReceipt (JObj (set_member k_sha256_hash
               (JStr (sha256_hex (canonicalJSON (JObj kvs)))) kvs)) = Inr True"
proof -
  define digest where "digest = sha256_hex (canonicalJSON (JObj kvs))"
  define doc where "doc = JObj (set_member k_sha256_hash (JStr digest) kvs)"
  have "hashed_members doc = kvs"
    unfolding doc_def using assms by (simp add: hashed_members_set_sha hashed_members_clean)
  then have c: "computeReceiptHash doc = digest"
    by (simp only: computeReceiptHash_def Let_def digest_def)
  have t: "truthy (JStr digest)"
    by (simp add: digest_def sha256_hex_nonempty)
  have g: "get_member doc k_sha256_hash = Some (JStr digest)"
    by (simp add: doc_def map_of_set_member_same)
  have n: "doc \<noteq> JNull"
    by (simp add: doc_def)
  have "ok (verifyReceipt doc)"
    using c t g n by (simp add: verifyReceipt_def js_or_def)
  moreover have "manual_verifyReceipt doc = Inr True"
    using c g n by (simp add: manual_verifyReceipt_def)
  ultimately show ?thesis
    unfolding doc_def digest_def by simp
qed

theorem round_trip_witness:
  "k_sha256_hash \<notin> fst ` set payment_fields \<and> k_hash \<notin> fst ` set payment_fields \<and>
   ok (verifyReceipt (JObj (payment_fields @
         [(k_sha256_hash, JStr (sha256_hex (canonicalJSON (JObj payment_fields))))])))"
proof -
  have a: "k_sha256_hash \<notin> fst ` set payment_fields"
    by (simp add: payment_fields_def k_sha256_hash_def ascii_def)
  have b: "k_hash \<notin> fst ` set payment_fields"
    by (simp add: payment_fields_def k_hash_def ascii_def)
  have s: "set_member k_sha256_hash v payment_fields = payment_fields @ [(k_sha256_hash, v)]" for v
    by (simp add: payment_fields_def k_sha256_hash_def ascii_def)
  show ?thesis
    using round_trip [OF a b] a b by (simp only: s simp_thms)
qed

section \<open>Key order\<close>

text \<open>
  C2. For every object without repeated keys and every object that equals it up to the
  order of the members of its objects, at the top level and at every depth,
  \<open>canonicalJSON\<close> returns the same string for both, and so the digests are equal.
\<close>

theorem key_order_independent:
  assumes "reorder a b" and "wf_json a"
  shows "canonicalJSON a = canonicalJSON b \<and>
         sha256_hex (canonicalJSON a) = sha256_hex (canonicalJSON b)"
  using reorder_canonical [OF assms] by simp

theorem key_order_independent_witness:
  "reorder listed_doc permuted_doc \<and> wf_json listed_doc \<and> listed_doc \<noteq> permuted_doc \<and>
   canonicalJSON listed_doc = canonicalJSON permuted_doc \<and>
   sha256_hex (canonicalJSON listed_doc) = sha256_hex (canonicalJSON permuted_doc)"
proof -
  have inner: "reorder (JObj [(ascii ''d'', JNull), (ascii ''c'', JArr [JBool True])])
                       (JObj [(ascii ''c'', JArr [JBool True]), (ascii ''d'', JNull)])"
    by (rule reorder.obj [of _ "[(ascii ''d'', JNull), (ascii ''c'', JArr [JBool True])]"])
       (auto intro: reorder.intros)
  have r: "reorder listed_doc permuted_doc"
    unfolding listed_doc_def permuted_doc_def
    by (rule reorder.obj [of _ "[(ascii ''a'', JNum (number_of_decimal False 1 0)),
           (ascii ''b'', JObj [(ascii ''c'', JArr [JBool True]), (ascii ''d'', JNull)])]"])
       (auto intro: reorder.intros inner)
  have w: "wf_json listed_doc"
    by (simp add: listed_doc_def ascii_def)
  have n: "listed_doc \<noteq> permuted_doc"
    by (simp add: listed_doc_def permuted_doc_def ascii_def)
  show ?thesis
    using key_order_independent [OF r w] r w n by simp
qed

section \<open>The value of the digest field\<close>

text \<open>
  C3, as amended. Setting \<open>sha256_hash\<close> to \<open>v1\<close> and to \<open>v2\<close> gives the same
  \<open>computed_hash\<close> exactly when the two values are both truthy or both falsy, or the
  document has a truthy \<open>hash\<close>. The document is any property list.
\<close>

theorem digest_value_irrelevant:
  "computed_hash (verifyReceipt (JObj (set_member k_sha256_hash v1 kvs))) =
     computed_hash (verifyReceipt (JObj (set_member k_sha256_hash v2 kvs)))
   \<longleftrightarrow> truthy v1 = truthy v2 \<or> truthy_opt (map_of kvs k_hash)"
proof -
  have n: "computeReceiptHash (JObj kvs) \<noteq> []"
    by (simp only: computeReceiptHash_def Let_def sha256_hex_nonempty not_False_eq_True)
  have c: "computed_hash (verifyReceipt (JObj (set_member k_sha256_hash v kvs))) =
             (if truthy v \<or> truthy_opt (map_of kvs k_hash) then computeReceiptHash (JObj kvs) else [])" for v
    by (simp only: verifyReceipt_computed_set_sha) (simp add: truthy_opt_def split: option.splits)
  show ?thesis
    unfolding c using n by auto
qed

theorem digest_value_irrelevant_witness:
  "truthy (JStr (ascii ''abc'')) \<noteq> truthy (JStr []) \<and>
   truthy_opt (map_of stored_receipt k_hash) \<and>
   computed_hash (verifyReceipt (JObj (set_member k_sha256_hash (JStr (ascii ''abc'')) stored_receipt))) =
   computed_hash (verifyReceipt (JObj (set_member k_sha256_hash (JStr []) stored_receipt))) \<and>
   computed_hash (verifyReceipt (JObj (set_member k_sha256_hash (JStr (ascii ''aaa'')) payment_fields))) =
   computed_hash (verifyReceipt (JObj (set_member k_sha256_hash (JStr (ascii ''bbb'')) payment_fields)))"
proof -
  have t: "truthy (JStr (ascii ''abc'')) \<noteq> truthy (JStr [])"
    by (simp add: ascii_def)
  have h: "truthy_opt (map_of stored_receipt k_hash)"
    by (simp add: stored_receipt_def payment_fields_def k_sha256_hash_def k_hash_def truthy_opt_def ascii_def)
  have u: "truthy (JStr (ascii ''aaa'')) = truthy (JStr (ascii ''bbb''))"
    by (simp add: ascii_def)
  show ?thesis
    using digest_value_irrelevant [of "JStr (ascii ''abc'')" stored_receipt "JStr []"]
      digest_value_irrelevant [of "JStr (ascii ''aaa'')" payment_fields "JStr (ascii ''bbb'')"]
      t h u
    by blast
qed

text \<open>
  C3 as stated fails: with the empty string as digest and no \<open>hash\<close> member the
  verification stops at the check of the reported hash and reports the empty computed
  hash; with the digest \<open>abc\<close> it reports the 64 digits it computed.
\<close>

theorem digest_value_counterexample:
  "computed_hash (verifyReceipt (JObj (set_member k_sha256_hash (JStr []) payment_fields))) \<noteq>
   computed_hash (verifyReceipt (JObj (set_member k_sha256_hash (JStr (ascii ''abc'')) payment_fields)))"
proof -
  have "map_of payment_fields k_hash = None"
    by (simp add: payment_fields_def k_hash_def ascii_def)
  then show ?thesis
    by (simp add: verifyReceipt_computed_set_sha ascii_def computeReceiptHash_def sha256_hex_nonempty [symmetric]
        del: canonicalJSON.simps)
qed

section \<open>The documented example\<close>

text \<open>
  C4. The claim: after the digest field is removed, the example with the amount
  \<open>10.0\<close> has the canonical form \<open>{"amount":10.0,"merchant":"ABC123"}\<close>. The code
  prints the Number as \<open>10\<close>, and the digest is the SHA-256 of that other string.
\<close>

theorem documented_example_canonical:
  \<open>canonicalJSON (JObj (hashed_members documented_receipt)) = ascii ''{"amount":10,"merchant":"ABC123"}'' \<and>
   canonicalJSON (JObj (hashed_members documented_receipt)) \<noteq> ascii ''{"amount":10.0,"merchant":"ABC123"}'' \<and>
   computeReceiptHash documented_receipt = sha256_hex (ascii ''{"amount":10,"merchant":"ABC123"}'')\<close>
proof -
  have c: \<open>canonicalJSON (JObj (hashed_members documented_receipt)) = ascii ''{"amount":10,"merchant":"ABC123"}''\<close>
    by (simp add: documented_receipt_def eval_defs)
  have d: \<open>ascii ''{"amount":10,"merchant":"ABC123"}'' \<noteq> ascii ''{"amount":10.0,"merchant":"ABC123"}''\<close>
    by (simp add: ascii_def)
  show ?thesis
    using d by (simp only: c computeReceiptHash_def Let_def simp_thms)
qed

section \<open>Keys in the output\<close>

text \<open>
  C5. The claim: every member is written with its key escaped as a JSON string. The
  code writes the key as it is: a double quote inside a key reaches the output
  without a backslash.
\<close>

theorem unescaped_key:
  \<open>canonicalJSON quoted_key_object = ascii ''{"a"b":1}'' \<and>
   canonicalJSON quoted_key_object \<noteq> ascii ''{'' @ QuoteJSONString (ascii ''a"b'') @ ascii '':1}''\<close>
  by (simp add: quoted_key_object_def eval_defs)

text \<open>
  \<open>sort()\<close> compares code units: the key U+1F600, a surrogate pair that starts with
  \<open>0xD83D\<close>, is written before the key U+FF5E, although its code point is the larger.
\<close>

lemma keys_in_code_unit_order:
  \<open>canonicalJSON (JObj [([0xFF5E], JNull), ([0xD83D, 0xDE00], JNull)]) =
     ascii ''{"'' @ [0xD83D, 0xDE00] @ ascii ''":null,"'' @ [0xFF5E] @ ascii ''":null}''\<close>
  by (simp add: ascii_def)

section \<open>A document without digest field\<close>

text \<open>
  C6, as amended. For every object with neither \<open>sha256_hash\<close> nor \<open>hash\<close>,
  \<open>verifyReceipt\<close> returns a result: \<open>ok\<close> is false, both hashes are the empty string,
  there is no receipt, and the error is "Receipt does not contain sha256_hash field".
\<close>

theorem missing_digest_reported:
  assumes "k_sha256_hash \<notin> fst ` set kvs" and "k_hash \<notin> fst ` set kvs"
  shows "verifyReceipt (JObj kvs) =
         \<lparr>ok = False, computed_hash = [], reported_hash = JStr [], receipt = None,
          error = Some (ascii ''Receipt does not contain sha256_hash field'')\<rparr>"
proof -
  have "map_of kvs k_sha256_hash = None" and "map_of kvs k_hash = None"
    using assms by (simp_all add: map_of_eq_None_iff)
  then show ?thesis
    by (simp add: verifyReceipt_def js_or_def failure_def msg_no_hash_def)
qed

theorem missing_digest_reported_witness:
  "k_sha256_hash \<notin> fst ` set payment_fields \<and> k_hash \<notin> fst ` set payment_fields \<and>
   verifyReceipt (JObj payment_fields) =
     \<lparr>ok = False, computed_hash = [], reported_hash = JStr [], receipt = None,
      error = Some (ascii ''Receipt does not contain sha256_hash field'')\<rparr>"
proof -
  have a: "k_sha256_hash \<notin> fst ` set payment_fields"
    by (simp add: payment_fields_def k_sha256_hash_def ascii_def)
  have b: "k_hash \<notin> fst ` set payment_fields"
    by (simp add: payment_fields_def k_hash_def ascii_def)
  show ?thesis
    using missing_digest_reported [OF a b] a b by simp
qed

text \<open>C6 as stated fails: the error is not the text "missing digest field".\<close>

theorem missing_digest_counterexample:
  "k_sha256_hash \<notin> fst ` set payment_fields \<and> k_hash \<notin> fst ` set payment_fields \<and>
   error (verifyReceipt (JObj payment_fields)) \<noteq> Some (ascii ''missing digest field'')"
proof -
  have a: "map_of payment_fields k_sha256_hash = None"
    by (simp add: payment_fields_def k_sha256_hash_def ascii_def)
  have b: "map_of payment_fields k_hash = None"
    by (simp add: payment_fields_def k_hash_def ascii_def)
  have "error (verifyReceipt (JObj payment_fields)) = Some msg_no_hash"
    using a b by (simp add: verifyReceipt_def js_or_def failure_def)
  moreover have "msg_no_hash \<noteq> ascii ''missing digest field''"
    by (simp add: msg_no_hash_def ascii_def)
  ultimately show ?thesis
    using a b by (simp add: map_of_eq_None_iff)
qed

section \<open>Digest fields in the hashed document\<close>

text \<open>
  C7, as amended. What \<open>computeReceiptHash\<close> canonicalizes and hashes, and so the
  \<open>computed_hash\<close> of every verification that reports no error, is the copy of the
  document without its own members \<open>sha256_hash\<close> and \<open>hash\<close>: no top-level member of
  the hashed object has either name, and every other top-level member is kept with
  its value, unchanged.
\<close>

theorem aliases_removed_top_level:
  assumes "error (verifyReceipt doc) = None"
  shows "computed_hash (verifyReceipt doc) =
           sha256_hex (canonicalJSON (JObj
             (filter (\<lambda>kv. fst kv \<noteq> k_sha256_hash \<and> fst kv \<noteq> k_hash) (spread doc)))) \<and>
         computeReceiptHash doc =
           sha256_hex (canonicalJSON (JObj
             (filter (\<lambda>kv. fst kv \<noteq> k_sha256_hash \<and> fst kv \<noteq> k_hash) (spread doc)))) \<and>
         k_sha256_hash \<notin> fst ` set (filter (\<lambda>kv. fst kv \<noteq> k_sha256_hash \<and> fst kv \<noteq> k_hash) (spread doc)) \<and>
         k_hash \<notin> fst ` set (filter (\<lambda>kv. fst kv \<noteq> k_sha256_hash \<and> fst kv \<noteq> k_hash) (spread doc))"
proof -
  have h: "hashed_members doc = filter (\<lambda>kv. fst kv \<noteq> k_sha256_hash \<and> fst kv \<noteq> k_hash) (spread doc)"
    by (auto simp: hashed_members_def delete_member_def intro: filter_cong)
  have c: "computeReceiptHash doc =
      sha256_hex (canonicalJSON (JObj
        (filter (\<lambda>kv. fst kv \<noteq> k_sha256_hash \<and> fst kv \<noteq> k_hash) (spread doc))))"
    by (simp only: computeReceiptHash_def Let_def h)
  have v: "computed_hash (verifyReceipt doc) = computeReceiptHash doc"
    using assms
    by (simp add: verifyReceipt_def failure_def Let_def split: if_splits option.splits)
  show ?thesis
    using c v by auto
qed

theorem aliases_removed_top_level_witness:
  \<open>error (verifyReceipt nested_alias_receipt) = None \<and>
   computed_hash (verifyReceipt nested_alias_receipt) =
     sha256_hex (ascii ''{"settlement":{"hash":"x"}}'')\<close>
proof -
  have e: "error (verifyReceipt nested_alias_receipt) = None"
    by (simp add: verifyReceipt_def nested_alias_receipt_def js_or_def Let_def k_sha256_hash_def
        k_hash_def ascii_def)
  have f: \<open>canonicalJSON (JObj (filter (\<lambda>kv. fst kv \<noteq> k_sha256_hash \<and> fst kv \<noteq> k_hash)
             (spread nested_alias_receipt))) = ascii ''{"settlement":{"hash":"x"}}''\<close>
    by (simp add: nested_alias_receipt_def eval_defs)
  show ?thesis
    using aliases_removed_top_level [OF e] e by (simp only: f simp_thms)
qed

text \<open>
  C7 as stated fails below the top level: a \<open>hash\<close> member of the settlement stays in
  the hashed object and in its canonical string.
\<close>

theorem nested_alias_counterexample:
  \<open>has_alias (JObj (hashed_members nested_alias_receipt)) \<and>
   canonicalJSON (JObj (hashed_members nested_alias_receipt)) = ascii ''{"settlement":{"hash":"x"}}''\<close>
  by (simp add: nested_alias_receipt_def eval_defs)

section \<open>Tampering\<close>

text \<open>
  C8. The claim: changing one field of a receipt with a correct digest makes the
  verification fail. Here the settlement is replaced by a different object whose
  unescaped key spells out the same canonical text; both receipts verify.
\<close>

theorem tampered_receipt_verifies:
  "ok (verifyReceipt genuine_receipt) \<and>
   get_member tampered_receipt (ascii ''settlement'') \<noteq> get_member genuine_receipt (ascii ''settlement'') \<and>
   hashed_members tampered_receipt = [(ascii ''settlement'', the (get_member tampered_receipt (ascii ''settlement'')))] \<and>
   hashed_members genuine_receipt = [(ascii ''settlement'', the (get_member genuine_receipt (ascii ''settlement'')))] \<and>
   ok (verifyReceipt tampered_receipt) \<and>
   JStr (computed_hash (verifyReceipt tampered_receipt)) = reported_hash (verifyReceipt tampered_receipt)"
proof -
  let ?d = \<open>sha256_hex (ascii ''{"settlement":{"fee":1,"net":9}}'')\<close>
  have g: "computeReceiptHash genuine_receipt = ?d"
    by (simp add: computeReceiptHash_def genuine_receipt_def eval_defs)
  have t: "computeReceiptHash tampered_receipt = ?d"
    by (simp add: computeReceiptHash_def tampered_receipt_def eval_defs)
  have rg: "js_or (get_member genuine_receipt k_sha256_hash) (get_member genuine_receipt k_hash) = Some (JStr ?d)"
    by (simp add: genuine_receipt_def js_or_def k_sha256_hash_def k_hash_def sha256_hex_nonempty) (simp add: ascii_def)
  have rt: "js_or (get_member tampered_receipt k_sha256_hash) (get_member tampered_receipt k_hash) = Some (JStr ?d)"
    by (simp add: tampered_receipt_def js_or_def k_sha256_hash_def k_hash_def sha256_hex_nonempty) (simp add: ascii_def)
  have ng: "genuine_receipt \<noteq> JNull" and nt: "tampered_receipt \<noteq> JNull"
    by (simp_all add: genuine_receipt_def tampered_receipt_def)
  have 1: "ok (verifyReceipt genuine_receipt)"
    by (simp add: verifyReceipt_def rg g ng sha256_hex_nonempty Let_def)
  have 2: "ok (verifyReceipt tampered_receipt) \<and>
      JStr (computed_hash (verifyReceipt tampered_receipt)) = reported_hash (verifyReceipt tampered_receipt)"
    by (simp add: verifyReceipt_def rt t nt sha256_hex_nonempty Let_def)
  have 3: "get_member tampered_receipt (ascii ''settlement'') \<noteq> get_member genuine_receipt (ascii ''settlement'')"
    by (simp add: tampered_receipt_def genuine_receipt_def ascii_def)
  have 4: "hashed_members tampered_receipt = [(ascii ''settlement'', the (get_member tampered_receipt (ascii ''settlement'')))]"
    by (simp add: tampered_receipt_def eval_defs)
  have 5: "hashed_members genuine_receipt = [(ascii ''settlement'', the (get_member genuine_receipt (ascii ''settlement'')))]"
    by (simp add: genuine_receipt_def eval_defs)
  show ?thesis
    using 1 2 3 4 5 by blast
qed

section \<open>The network of a request\<close>




section \<open>The input of the verification\<close>

text \<open>
  C10. \<open>verifyReceipt\<close> leaves every object that existed before the call as it was, the
  receipt among them, with its \<open>sha256_hash\<close> and \<open>hash\<close>: the two \<open>delete\<close> statements
  act on the copy. Its result is that of the function on values.
\<close>

theorem verifyReceipt_preserves_input:
  assumes "r < length st"
  shows "take (length st) (snd (verifyReceipt_store r st)) = st \<and>
         snd (verifyReceipt_store r st) ! r = st ! r \<and>
         fst (verifyReceipt_store r st) = verifyReceipt (JObj (st ! r))"
  using assms
  by (simp add: verifyReceipt_store_def verifyReceipt_def computeReceiptHash_store_eq nth_append
      Let_def split: option.splits)

theorem verifyReceipt_preserves_input_witness:
  "(0::nat) < length [stored_receipt] \<and>
   snd (verifyReceipt_store 0 [stored_receipt]) ! 0 = stored_receipt \<and>
   map_of (snd (verifyReceipt_store 0 [stored_receipt]) ! 0) k_sha256_hash = Some (JStr (ascii ''abc'')) \<and>
   map_of (snd (verifyReceipt_store 0 [stored_receipt]) ! 0) k_hash = Some (JStr (ascii ''def'')) \<and>
   map_of (delete_property 0 k_sha256_hash [stored_receipt] ! 0) k_sha256_hash = None"
proof -
  have l: "(0::nat) < length [stored_receipt]"
    by simp
  have a: "map_of stored_receipt k_sha256_hash = Some (JStr (ascii ''abc''))"
    by (simp add: stored_receipt_def payment_fields_def k_sha256_hash_def k_hash_def ascii_def)
  have b: "map_of stored_receipt k_hash = Some (JStr (ascii ''def''))"
    by (simp add: stored_receipt_def payment_fields_def k_sha256_hash_def k_hash_def ascii_def)
  have c: "map_of (delete_property 0 k_sha256_hash [stored_receipt] ! 0) k_sha256_hash = None"
    by (simp add: delete_property_def delete_member_def map_of_eq_None_iff image_iff)
  show ?thesis
    using verifyReceipt_preserves_input [OF l] a b c by simp
qed

end
